theory Spec2Isabelle
  imports Complex_Main "HOL-Library.Word"
begin

unbundle bit_operations_syntax

section \<open>Python values and exceptions\<close>

text \<open>
  The exceptions that the modelled methods of \<open>FileSystem\<close> can raise or catch.
  A raising computation is \<open>Inl\<close> of the exception, a returning one \<open>Inr\<close> of the value.
\<close>

datatype pyerr = TypeError | OverflowError | ZeroDivisionError | IndexError | OSError

section \<open>Number formatting\<close>

definition digit_char :: "nat \<Rightarrow> char" where
  "digit_char n = ''0123456789abcdef'' ! n"

text \<open>Decimal digits of a natural number, without leading zeros (\<open>str(n)\<close>).\<close>

fun digits10 :: "nat \<Rightarrow> string" where
  "digits10 n = (if n < 10 then [digit_char n] else digits10 (n div 10) @ [digit_char (n mod 10)])"

declare digits10.simps [simp del]

text \<open>Octal digits of a natural number, without leading zeros.\<close>

fun digits8 :: "nat \<Rightarrow> string" where
  "digits8 n = (if n < 8 then [digit_char n] else digits8 (n div 8) @ [digit_char (n mod 8)])"

declare digits8.simps [simp del]

text \<open>
  \<open>float(n)\<close> for a Python integer: the nearest IEEE double, ties to even, and
  \<open>OverflowError\<close> when the rounded value needs an exponent above 1024, that is when it
  has more than 1024 bits. A finite double is an exact rational, which is how it is
  represented here. \<open>bitlen\<close> is \<open>int.bit_length\<close> of a non-negative integer.
\<close>

function bitlen :: "int \<Rightarrow> nat" where
  "bitlen n = (if n \<le> 0 then 0 else Suc (bitlen (n div 2)))"
  by pat_completeness auto
termination
  by (relation "measure nat") auto

declare bitlen.simps [simp del]

definition round_to_double :: "int \<Rightarrow> int" where
  "round_to_double m =
     (let e = bitlen m - 53;
          q = m div 2 ^ e;
          r = m mod 2 ^ e;
          up = (e > 0 \<and> (r > 2 ^ (e - 1) \<or> (r = 2 ^ (e - 1) \<and> odd q)))
      in (if up then q + 1 else q) * 2 ^ e)"

definition float_of_int :: "int \<Rightarrow> pyerr + rat" where
  "float_of_int n =
     (let m = round_to_double \<bar>n\<bar>
      in if bitlen m > 1024 then Inl OverflowError
         else Inr (of_int (if n < 0 then - m else m)))"

text \<open>
  The format specification \<open>.df\<close> applied to a double: the exact value rounded to
  \<open>d\<close> decimals, ties to even, with a minus sign for a negative value.
\<close>

definition round_half_even :: "rat \<Rightarrow> int" where
  "round_half_even x =
     (let f = \<lfloor>x\<rfloor>; d = x - of_int f
      in if d < 1 / 2 then f else if d > 1 / 2 then f + 1 else if even f then f else f + 1)"

definition zero_pad :: "nat \<Rightarrow> string \<Rightarrow> string" where
  "zero_pad d s = replicate (d - length s) CHR ''0'' @ s"

definition format_f :: "rat \<Rightarrow> nat \<Rightarrow> string" where
  "format_f x d =
     (let n = nat (round_half_even (\<bar>x\<bar> * 10 ^ d))
      in (if x < 0 then ''-'' else '''') @ digits10 (n div 10 ^ d) @
         (if d = 0 then '''' else ''.'' @ zero_pad d (digits10 (n mod 10 ^ d))))"

section \<open>\<open>FileSystem._human_readable_size\<close>\<close>

definition units :: "string list" where
  "units = [''B'', ''KB'', ''MB'', ''GB'', ''TB'', ''PB'']"

text \<open>The \<open>while\<close> loop: divide by 1024 while the size is at least 1024 and a unit is left.\<close>

function scale_loop :: "rat \<Rightarrow> nat \<Rightarrow> rat \<times> nat" where
  "scale_loop sz unit_index =
     (if sz \<ge> 1024 \<and> unit_index < length units - 1
      then scale_loop (sz / 1024) (unit_index + 1)
      else (sz, unit_index))"
  by pat_completeness auto
termination
  by (relation "measure (\<lambda>(sz, unit_index). length units - 1 - unit_index)") auto

declare scale_loop.simps [simp del]

text \<open>
  The argument is \<open>None\<close> or an integer; \<open>None == 0\<close> is false and \<open>float(None)\<close>
  raises \<open>TypeError\<close>.
\<close>

definition human_readable_size :: "int option \<Rightarrow> nat \<Rightarrow> pyerr + string" where
  "human_readable_size sz decimal_places =
     (case sz of
        None \<Rightarrow> Inl TypeError
      | Some n \<Rightarrow>
          if n = 0 then Inr ''0 B''
          else (case float_of_int n of
                  Inl e \<Rightarrow> Inl e
                | Inr f \<Rightarrow>
                    (case scale_loop f 0 of
                       (s, unit_index) \<Rightarrow>
                         Inr (format_f s decimal_places @ '' '' @ units ! unit_index))))"


section \<open>The operating system as the methods see it\<close>

text \<open>
  A sample of \<open>os.statvfs\<close>: every field is an unsigned 64-bit counter of the C structure,
  read by Python as a non-negative integer (\<open>uint\<close>).
\<close>

record statvfs_result =
  f_bsize :: "64 word"
  f_frsize :: "64 word"
  f_blocks :: "64 word"
  f_bfree :: "64 word"
  f_bavail :: "64 word"
  f_files :: "64 word"
  f_ffree :: "64 word"
  f_favail :: "64 word"
  f_fsid :: "64 word"
  f_flag :: "64 word"
  f_namemax :: "64 word"

record stat_result =
  st_mode :: "32 word"
  st_uid :: "32 word"
  st_gid :: "32 word"

text \<open>
  The calls into the platform, as functions of their arguments:
  \<^item> \<open>disk_usage\<close> is \<open>shutil.disk_usage\<close>, returning \<open>(total, used, free)\<close> or raising;
  \<^item> \<open>mount_output\<close> is \<open>subprocess.check_output(['mount'], ...)\<close>;
  \<^item> \<open>statvfs\<close> is \<open>os.statvfs\<close>, with \<open>None\<close> when the platform has no such attribute;
  \<^item> \<open>path_exists\<close>, \<open>isfile\<close> and \<open>stat\<close> are \<open>os.path.exists\<close>, \<open>os.path.isfile\<close>
    and \<open>os.stat\<close>, all of which follow symbolic links;
  \<^item> \<open>lstat\<close> is \<open>os.lstat\<close>, which does not follow them. No method calls it; it is
    here to say which paths are symbolic links;
  \<^item> \<open>file_bytes\<close> is the content read from a file opened in binary mode; opening or
    reading may raise;
  \<^item> \<open>hexdigest\<close> is \<open>hashlib\<close>: the hexadecimal digest of the named algorithm over
    the bytes fed to the hash object.
\<close>

record system =
  current_dir :: string
  disk_usage :: "string \<Rightarrow> pyerr + (int \<times> int \<times> int)"
  mount_output :: "pyerr + string"
  statvfs :: "string \<Rightarrow> (pyerr + statvfs_result) option"
  abspath :: "string \<Rightarrow> string"
  path_exists :: "string \<Rightarrow> bool"
  isfile :: "string \<Rightarrow> bool"
  stat :: "string \<Rightarrow> pyerr + stat_result"
  lstat :: "string \<Rightarrow> pyerr + stat_result"
  file_bytes :: "string \<Rightarrow> pyerr + 8 word list"
  hexdigest :: "string \<Rightarrow> 8 word list \<Rightarrow> string"

section \<open>\<open>FileSystem.get_drive_space\<close>\<close>

text \<open>
  Percentages are Python floats. They are kept as the exact rational value of the
  quotient; the binary rounding of the division is not modelled, and every statement below
  that mentions a percentage is about the guard that selects it. \<open>round(x, 2)\<close> is
  \<open>round2\<close>.
\<close>

definition truediv :: "int \<Rightarrow> int \<Rightarrow> pyerr + rat" where
  "truediv a b = (if b = 0 then Inl ZeroDivisionError else Inr (of_int a / of_int b))"

definition round2 :: "rat \<Rightarrow> rat" where
  "round2 x = of_int (round_half_even (x * 100)) / 100"

record space_info =
  total :: int
  total_human :: string
  used :: int
  used_human :: string
  free :: int
  free_human :: string
  used_percent :: rat

text \<open>The body of the \<open>try\<close> block; the dictionary entries are evaluated in order.\<close>

definition drive_space_body :: "system \<Rightarrow> string option \<Rightarrow> pyerr + space_info" where
  "drive_space_body sys path =
     (let path = (case path of None \<Rightarrow> current_dir sys | Some p \<Rightarrow> p)
      in case disk_usage sys path of
           Inl e \<Rightarrow> Inl e
         | Inr (t, u, f) \<Rightarrow>
             (case human_readable_size (Some t) 2 of
                Inl e \<Rightarrow> Inl e
              | Inr th \<Rightarrow>
             (case human_readable_size (Some u) 2 of
                Inl e \<Rightarrow> Inl e
              | Inr uh \<Rightarrow>
             (case human_readable_size (Some f) 2 of
                Inl e \<Rightarrow> Inl e
              | Inr fh \<Rightarrow>
             (case truediv u t of
                Inl e \<Rightarrow> Inl e
              | Inr q \<Rightarrow>
                  Inr \<lparr>total = t, total_human = th, used = u, used_human = uh,
                       free = f, free_human = fh, used_percent = round2 (q * 100)\<rparr>)))))"

text \<open>\<open>except Exception\<close> returns the empty dictionary, here \<open>None\<close>.\<close>

definition get_drive_space :: "system \<Rightarrow> string option \<Rightarrow> space_info option" where
  "get_drive_space sys path =
     (case drive_space_body sys path of Inl e \<Rightarrow> None | Inr d \<Rightarrow> Some d)"

section \<open>\<open>FileSystem.get_disk_partitions\<close>, the mount-table branch\<close>

text \<open>
  The text returned by \<open>mount\<close> is a Python string; its characters are taken here from
  the 8-bit range. \<open>str.splitlines\<close> breaks a line at each of the line boundaries below
  (\<open>\r\n\<close> counting as one) and yields no empty last line; \<open>str.split()\<close> returns the
  maximal runs of characters that are not white space.
\<close>

definition is_linebreak :: "char \<Rightarrow> bool" where
  "is_linebreak c \<longleftrightarrow>
     c \<in> set [CHR 0x0A, CHR 0x0D, CHR 0x0B, CHR 0x0C, CHR 0x1C, CHR 0x1D, CHR 0x1E, CHR 0x85]"

definition is_space :: "char \<Rightarrow> bool" where
  "is_space c \<longleftrightarrow>
     c \<in> set [CHR 0x20, CHR 0x09, CHR 0x0A, CHR 0x0B, CHR 0x0C, CHR 0x0D,
              CHR 0x1C, CHR 0x1D, CHR 0x1E, CHR 0x1F, CHR 0x85, CHR 0xA0]"

text \<open>The first argument is the line, or the field, read so far, last character first.\<close>

fun splitlines_from :: "string \<Rightarrow> string \<Rightarrow> string list" where
  "splitlines_from cur [] = (if cur = [] then [] else [rev cur])"
| "splitlines_from cur (c # cs) =
     (if is_linebreak c then
        rev cur #
        (case cs of
           [] \<Rightarrow> []
         | d # ds \<Rightarrow>
             if c = CHR 0x0D \<and> d = CHR 0x0A then splitlines_from [] ds
             else splitlines_from [] (d # ds))
      else splitlines_from (c # cur) cs)"

definition splitlines :: "string \<Rightarrow> string list" where
  "splitlines s = splitlines_from [] s"

fun split_from :: "string \<Rightarrow> string \<Rightarrow> string list" where
  "split_from cur [] = (if cur = [] then [] else [rev cur])"
| "split_from cur (c # cs) =
     (if is_space c then (if cur = [] then split_from [] cs else rev cur # split_from [] cs)
      else split_from (c # cur) cs)"

definition split_str :: "string \<Rightarrow> string list" where
  "split_str s = split_from [] s"

text \<open>\<open>s.strip(chars)\<close>, \<open>s.startswith(prefixes)\<close> and \<open>xs[i]\<close> for \<open>i \<ge> 0\<close>.\<close>

definition strip :: "string \<Rightarrow> string \<Rightarrow> string" where
  "strip chars s =
     rev (dropWhile (\<lambda>c. c \<in> set chars) (rev (dropWhile (\<lambda>c. c \<in> set chars) s)))"

definition startswith :: "string \<Rightarrow> string list \<Rightarrow> bool" where
  "startswith s prefixes = list_ex (\<lambda>p. take (length p) s = p) prefixes"

definition index :: "'a list \<Rightarrow> nat \<Rightarrow> pyerr + 'a" where
  "index xs i = (if i < length xs then Inr (xs ! i) else Inl IndexError)"

record part_info =
  device :: string
  mountpoint :: string
  fstype :: string
  opts :: string
  total_space :: int
  free_space :: int
  used_space :: int
  part_used_percent :: rat

text \<open>The condition under which a mount-table entry is skipped unless all are asked for.\<close>

definition non_physical :: "string \<Rightarrow> string \<Rightarrow> bool" where
  "non_physical fs dev \<longleftrightarrow>
     fs \<in> set [''proc'', ''sysfs'', ''devpts'', ''devtmpfs'', ''tmpfs''] \<or>
     startswith dev [''none'', ''/dev/loop'', ''udev'']"

text \<open>
  The inner \<open>try\<close> block: the space of the mount point and the dictionary of the
  entry, a missing key of the space dictionary giving 0. \<open>get_drive_space\<close> does not
  raise, so the block always yields the entry.
\<close>

definition part_info_of :: "system \<Rightarrow> string \<Rightarrow> string \<Rightarrow> string \<Rightarrow> string \<Rightarrow> part_info" where
  "part_info_of sys dev mnt fs options =
     (let space = get_drive_space sys (Some mnt)
      in \<lparr>device = dev, mountpoint = mnt, fstype = fs, opts = options,
          total_space = (case space of None \<Rightarrow> 0 | Some d \<Rightarrow> total d),
          free_space = (case space of None \<Rightarrow> 0 | Some d \<Rightarrow> free d),
          used_space = (case space of None \<Rightarrow> 0 | Some d \<Rightarrow> used d),
          part_used_percent = (case space of None \<Rightarrow> 0 | Some d \<Rightarrow> used_percent d)\<rparr>)"

text \<open>
  The loop over the lines. \<open>partitions\<close> is the list that the loop appends to. An
  exception raised in the loop body outside the inner \<open>try\<close> leaves the loop: the
  result is the list as it stands and the exception. \<open>parts[0]\<close>, \<open>parts[2]\<close> and
  \<open>parts[4]\<close> are in range under the guard; \<open>parts[5]\<close> is read before the filter.
\<close>

fun mount_loop ::
  "system \<Rightarrow> bool \<Rightarrow> string list \<Rightarrow> part_info list \<Rightarrow> part_info list \<times> pyerr option" where
  "mount_loop sys all_partitions [] partitions = (partitions, None)"
| "mount_loop sys all_partitions (line # rest) partitions =
     (let parts = split_str line
      in if length parts \<ge> 5 then
           (let dev = parts ! 0; mnt = parts ! 2; fs = parts ! 4
            in case index parts 5 of
                 Inl e \<Rightarrow> (partitions, Some e)
               | Inr p5 \<Rightarrow>
                   (let options = strip ''()'' p5
                    in if \<not> all_partitions \<and> non_physical fs dev
                       then mount_loop sys all_partitions rest partitions
                       else mount_loop sys all_partitions rest
                              (partitions @ [part_info_of sys dev mnt fs options])))
         else mount_loop sys all_partitions rest partitions)"

text \<open>
  The method for \<open>os_type\<close> other than \<open>windows\<close>. A failure of the \<open>mount\<close> command
  and an exception leaving the loop are both caught by the same handler, which prints a
  message; the method then returns \<open>partitions\<close>.
\<close>

definition get_disk_partitions :: "system \<Rightarrow> bool \<Rightarrow> part_info list" where
  "get_disk_partitions sys all_partitions =
     (case mount_output sys of
        Inl e \<Rightarrow> []
      | Inr out \<Rightarrow> fst (mount_loop sys all_partitions (splitlines out) []))"

text \<open>
  The mount-table strategy as the specification words it: every line with at least five
  fields is an entry, made of field 0 (device), field 2 (mount point), field 4 (file system
  type) and field 5 without its parentheses (options), with the space of its mount point;
  unless virtual volumes are asked for, the entries that the denylist names are left out;
  the order of the lines is kept. A line without a field 5 is read as having no options.
\<close>

definition spec_entry :: "system \<Rightarrow> string \<Rightarrow> part_info" where
  "spec_entry sys line =
     (let parts = split_str line
      in part_info_of sys (parts ! 0) (parts ! 2) (parts ! 4)
           (if 5 < length parts then strip ''()'' (parts ! 5) else []))"

definition spec_partitions :: "system \<Rightarrow> bool \<Rightarrow> string list \<Rightarrow> part_info list" where
  "spec_partitions sys include_virtual lines =
     map (spec_entry sys)
       (filter (\<lambda>line. 5 \<le> length (split_str line) \<and>
                  (include_virtual \<or> \<not> non_physical (split_str line ! 4) (split_str line ! 0)))
          lines)"

section \<open>\<open>FileSystem.get_filesystem_stats\<close>\<close>









section \<open>\<open>FileSystem.get_file_hash\<close>\<close>

text \<open>
  The file is read in chunks of 4096 bytes until a read returns no bytes, and each chunk
  is fed to the hash object. A hash object is represented by the bytes fed to it so far:
  \<open>update\<close> appends.
\<close>

function read_chunks :: "8 word list \<Rightarrow> 8 word list list" where
  "read_chunks bs = (if bs = [] then [] else take 4096 bs # read_chunks (drop 4096 bs))"
  by pat_completeness auto
termination
  by (relation "measure length") auto

declare read_chunks.simps [simp del]

definition hash_funcs :: "string list" where
  "hash_funcs = [''md5'', ''sha1'', ''sha256'']"

definition file_hash_body :: "system \<Rightarrow> string \<Rightarrow> string \<Rightarrow> pyerr + string" where
  "file_hash_body sys path hash_type =
     (if \<not> isfile sys path then Inr []
      else if hash_type \<notin> set hash_funcs then Inr []
      else (case file_bytes sys path of
              Inl e \<Rightarrow> Inl e
            | Inr bs \<Rightarrow>
                Inr (hexdigest sys hash_type (foldl (\<lambda>h chunk. h @ chunk) [] (read_chunks bs)))))"

definition get_file_hash :: "system \<Rightarrow> string \<Rightarrow> string \<Rightarrow> string" where
  "get_file_hash sys path hash_type =
     (case file_hash_body sys path hash_type of Inl e \<Rightarrow> [] | Inr h \<Rightarrow> h)"

section \<open>\<open>FileSystem.get_file_permissions\<close>\<close>

text \<open>The constants and predicates of the \<open>stat\<close> module, in hexadecimal.\<close>

definition S_IFMT :: "32 word" where "S_IFMT = 0xF000"
definition S_IFDIR :: "32 word" where "S_IFDIR = 0x4000"
definition S_IFLNK :: "32 word" where "S_IFLNK = 0xA000"
definition S_IFREG :: "32 word" where "S_IFREG = 0x8000"
definition S_ISUID :: "32 word" where "S_ISUID = 0x800"
definition S_ISGID :: "32 word" where "S_ISGID = 0x400"
definition S_ISVTX :: "32 word" where "S_ISVTX = 0x200"
definition S_IRUSR :: "32 word" where "S_IRUSR = 0x100"
definition S_IWUSR :: "32 word" where "S_IWUSR = 0x80"
definition S_IXUSR :: "32 word" where "S_IXUSR = 0x40"
definition S_IRGRP :: "32 word" where "S_IRGRP = 0x20"
definition S_IWGRP :: "32 word" where "S_IWGRP = 0x10"
definition S_IXGRP :: "32 word" where "S_IXGRP = 0x8"
definition S_IROTH :: "32 word" where "S_IROTH = 0x4"
definition S_IWOTH :: "32 word" where "S_IWOTH = 0x2"
definition S_IXOTH :: "32 word" where "S_IXOTH = 0x1"

definition S_ISDIR :: "32 word \<Rightarrow> bool" where
  "S_ISDIR mode \<longleftrightarrow> mode AND S_IFMT = S_IFDIR"

definition S_ISLNK :: "32 word \<Rightarrow> bool" where
  "S_ISLNK mode \<longleftrightarrow> mode AND S_IFMT = S_IFLNK"

text \<open>\<open>oct(n)\<close> for a non-negative integer; \<open>0o777\<close> is \<open>0x1FF\<close>.\<close>

definition oct :: "nat \<Rightarrow> string" where
  "oct n = ''0o'' @ digits8 n"

definition octal_perm :: "32 word \<Rightarrow> string" where
  "octal_perm mode = oct (unat (mode AND 0x1FF))"

definition symbolic_perm :: "32 word \<Rightarrow> string" where
  "symbolic_perm mode =
     (if S_ISDIR mode then ''d'' else if S_ISLNK mode then ''l'' else ''-'') @
     (if mode AND S_IRUSR \<noteq> 0 then ''r'' else ''-'') @
     (if mode AND S_IWUSR \<noteq> 0 then ''w'' else ''-'') @
     (if mode AND S_IXUSR \<noteq> 0 then ''x'' else ''-'') @
     (if mode AND S_IRGRP \<noteq> 0 then ''r'' else ''-'') @
     (if mode AND S_IWGRP \<noteq> 0 then ''w'' else ''-'') @
     (if mode AND S_IXGRP \<noteq> 0 then ''x'' else ''-'') @
     (if mode AND S_IROTH \<noteq> 0 then ''r'' else ''-'') @
     (if mode AND S_IWOTH \<noteq> 0 then ''w'' else ''-'') @
     (if mode AND S_IXOTH \<noteq> 0 then ''x'' else ''-'')"

record special_bits =
  setuid :: bool
  setgid :: bool
  sticky :: bool

record permissions =
  perm_path :: string
  octal :: string
  symbolic :: string
  special :: special_bits
  owner_id :: "32 word"
  group_id :: "32 word"

text \<open>The dictionary built from a mode and the owner; \<open>None\<close> is the empty dictionary.\<close>

definition get_file_permissions :: "system \<Rightarrow> string \<Rightarrow> permissions option" where
  "get_file_permissions sys path =
     (if \<not> path_exists sys path then None
      else (case stat sys path of
              Inl e \<Rightarrow> None
            | Inr st \<Rightarrow>
                (let mode = st_mode st
                 in Some \<lparr>perm_path = abspath sys path,
                          octal = octal_perm mode,
                          symbolic = symbolic_perm mode,
                          special = \<lparr>setuid = (mode AND S_ISUID \<noteq> 0),
                                     setgid = (mode AND S_ISGID \<noteq> 0),
                                     sticky = (mode AND S_ISVTX \<noteq> 0)\<rparr>,
                          owner_id = st_uid st,
                          group_id = st_gid st\<rparr>)))"

section \<open>Reading numbers back, and a small system to run the model on\<close>

text \<open>\<open>int(s, 8)\<close> for a string of octal digits.\<close>

definition digit_value :: "char \<Rightarrow> nat" where
  "digit_value c = of_char c - 48"

definition octal_value :: "string \<Rightarrow> nat" where
  "octal_value s = foldl (\<lambda>a c. 8 * a + digit_value c) 0 s"

definition hex_chars :: "char set" where
  "hex_chars = set ''0123456789abcdef''"

definition digest_length :: "string \<Rightarrow> nat" where
  "digest_length hash_type =
     (if hash_type = ''md5'' then 32 else if hash_type = ''sha1'' then 40 else 64)"

text \<open>
  What \<open>hashlib\<close> promises of \<open>hexdigest\<close>: twice the digest size in characters, all of
  them hexadecimal digits.
\<close>

definition hashlib_contract :: "system \<Rightarrow> bool" where
  "hashlib_contract sys \<longleftrightarrow>
     (\<forall>hash_type bs.
        length (hexdigest sys hash_type bs) = digest_length hash_type \<and>
        set (hexdigest sys hash_type bs) \<subseteq> hex_chars)"

text \<open>
  A system with a root volume, an empty \<open>/proc\<close>, one executable with the set-user-id
  bit, a symbolic link \<open>/link\<close> to a regular file of mode \<open>0o644\<close>, and a stand-in for
  \<open>hashlib\<close> that only has the right digest lengths.
\<close>

definition sample_statvfs :: statvfs_result where
  "sample_statvfs =
     \<lparr>f_bsize = 4096, f_frsize = 0, f_blocks = 1000, f_bfree = 400, f_bavail = 300,
      f_files = 0, f_ffree = 0, f_favail = 0, f_fsid = 7, f_flag = 0, f_namemax = 255\<rparr>"

definition sample_mount_output :: string where
  "sample_mount_output =
     ''/dev/sda1 on / type ext4 (rw,relatime)'' @ [CHR 0x0A] @
     ''proc on /proc type proc (rw)'' @ [CHR 0x0A] @
     ''garbage line'' @ [CHR 0x0A] @
     ''/dev/loop3 on /snap type squashfs (ro)'' @ [CHR 0x0A] @
     ''/dev/sdb1 on /data type zfs (rw)'' @ [CHR 0x0A]"

text \<open>
  Two mount tables: one whose first line has exactly five fields, in the format that
  \<open>mount\<close> prints on macOS for a volume with two options, and one with the second line
  alone.
\<close>

definition five_field_table :: string where
  "five_field_table =
     ''/dev/disk2s1 on /Volumes/USB (msdos, local)'' @ [CHR 0x0A] @
     ''/dev/sdb1 on /data type ext4 (rw)'' @ [CHR 0x0A]"

definition well_formed_table :: string where
  "well_formed_table = ''/dev/sdb1 on /data type ext4 (rw)'' @ [CHR 0x0A]"

definition sample_system :: system where
  "sample_system =
     \<lparr>current_dir = ''/home'',
      disk_usage = (\<lambda>p. if p = ''/'' then Inr (4096000, 2457600, 1638400)
                         else if p = ''/proc'' then Inr (0, 0, 0) else Inl OSError),
      mount_output = Inr sample_mount_output,
      statvfs = (\<lambda>p. Some (Inr sample_statvfs)),
      abspath = (\<lambda>p. p),
      path_exists = (\<lambda>p. p = ''/bin/su'' \<or> p = ''/link''),
      isfile = (\<lambda>p. p = ''/bin/su'' \<or> p = ''/locked'' \<or> p = ''/link''),
      stat = (\<lambda>p. if p = ''/link'' then Inr \<lparr>st_mode = 0x81A4, st_uid = 0, st_gid = 0\<rparr>
                   else Inr \<lparr>st_mode = 0x89ED, st_uid = 0, st_gid = 0\<rparr>),
      lstat = (\<lambda>p. if p = ''/link'' then Inr \<lparr>st_mode = 0xA1FF, st_uid = 0, st_gid = 0\<rparr>
                    else Inr \<lparr>st_mode = 0x89ED, st_uid = 0, st_gid = 0\<rparr>),
      file_bytes = (\<lambda>p. if p = ''/bin/su'' then Inr [1, 2, 3] else Inl OSError),
      hexdigest = (\<lambda>hash_type bs. replicate (digest_length hash_type) CHR ''0'')\<rparr>"

text \<open>
  \<open>os.stat\<close> follows symbolic links: the mode it returns is that of the file the link
  leads to, so it never has the type bits of a link.
\<close>

definition stat_follows_links :: "system \<Rightarrow> bool" where
  "stat_follows_links sys \<longleftrightarrow> (\<forall>p st. stat sys p = Inr st \<longrightarrow> \<not> S_ISLNK (st_mode st))"

section \<open>Permissions\<close>

lemmas stat_consts =
  S_IFMT_def S_IFDIR_def S_IFLNK_def S_IFREG_def S_ISUID_def S_ISGID_def S_ISVTX_def
  S_IRUSR_def S_IWUSR_def S_IXUSR_def S_IRGRP_def S_IWGRP_def S_IXGRP_def
  S_IROTH_def S_IWOTH_def S_IXOTH_def

lemma and_pow_bit: "(m :: 32 word) AND 2 ^ n \<noteq> 0 \<longleftrightarrow> bit m n"
  using and_exp_eq_0_iff_not_bit [of m n] by blast

lemma perm_bits:
  fixes m :: "32 word"
  shows "m AND S_IRUSR \<noteq> 0 \<longleftrightarrow> bit m 8" "m AND S_IWUSR \<noteq> 0 \<longleftrightarrow> bit m 7"
    "m AND S_IXUSR \<noteq> 0 \<longleftrightarrow> bit m 6" "m AND S_IRGRP \<noteq> 0 \<longleftrightarrow> bit m 5"
    "m AND S_IWGRP \<noteq> 0 \<longleftrightarrow> bit m 4" "m AND S_IXGRP \<noteq> 0 \<longleftrightarrow> bit m 3"
    "m AND S_IROTH \<noteq> 0 \<longleftrightarrow> bit m 2" "m AND S_IWOTH \<noteq> 0 \<longleftrightarrow> bit m 1"
    "m AND S_IXOTH \<noteq> 0 \<longleftrightarrow> bit m 0"
    "m AND S_ISUID \<noteq> 0 \<longleftrightarrow> bit m 11" "m AND S_ISGID \<noteq> 0 \<longleftrightarrow> bit m 10"
    "m AND S_ISVTX \<noteq> 0 \<longleftrightarrow> bit m 9"
  using and_pow_bit [of m 8] and_pow_bit [of m 7] and_pow_bit [of m 6] and_pow_bit [of m 5]
    and_pow_bit [of m 4] and_pow_bit [of m 3] and_pow_bit [of m 2] and_pow_bit [of m 1]
    and_pow_bit [of m 0] and_pow_bit [of m 11] and_pow_bit [of m 10] and_pow_bit [of m 9]
  by (simp_all add: stat_consts)

lemma symbolic_perm_list:
  "symbolic_perm mode =
     [if S_ISDIR mode then CHR ''d'' else if S_ISLNK mode then CHR ''l'' else CHR ''-'',
      if bit mode 8 then CHR ''r'' else CHR ''-'',
      if bit mode 7 then CHR ''w'' else CHR ''-'',
      if bit mode 6 then CHR ''x'' else CHR ''-'',
      if bit mode 5 then CHR ''r'' else CHR ''-'',
      if bit mode 4 then CHR ''w'' else CHR ''-'',
      if bit mode 3 then CHR ''x'' else CHR ''-'',
      if bit mode 2 then CHR ''r'' else CHR ''-'',
      if bit mode 1 then CHR ''w'' else CHR ''-'',
      if bit mode 0 then CHR ''x'' else CHR ''-'']"
  by (simp add: symbolic_perm_def perm_bits)

lemma symbolic_perm_length: "length (symbolic_perm mode) = 10"
  by (simp add: symbolic_perm_list)

lemma symbolic_perm_bits:
  assumes "k < 9"
  shows "symbolic_perm mode ! Suc k = (if bit mode (8 - k) then ''rwxrwxrwx'' ! k else CHR ''-'')"
proof -
  have "k \<in> set [0, 1, 2, 3, 4, 5, 6, 7, 8]"
    using assms by (simp, arith)
  then have "k = 0 \<or> k = 1 \<or> k = 2 \<or> k = 3 \<or> k = 4 \<or> k = 5 \<or> k = 6 \<or> k = 7 \<or> k = 8"
    by simp
  then show ?thesis
    by (elim disjE) (simp_all add: symbolic_perm_list split del: if_split, simp_all)
qed

lemma symbolic_perm_mask: "symbolic_perm (mode AND 0xF1FF) = symbolic_perm mode"
  by (simp add: symbolic_perm_def S_ISDIR_def S_ISLNK_def stat_consts and.assoc)

lemma symbolic_perm_cong:
  assumes "mode' AND 0xF1FF = mode AND 0xF1FF"
  shows "symbolic_perm mode' = symbolic_perm mode"
  using assms symbolic_perm_mask [of mode] symbolic_perm_mask [of mode'] by simp

lemma get_file_permissions_Some:
  assumes "path_exists sys path" and "stat sys path = Inr st"
  shows "get_file_permissions sys path =
           Some \<lparr>perm_path = abspath sys path,
                 octal = octal_perm (st_mode st),
                 symbolic = symbolic_perm (st_mode st),
                 special = \<lparr>setuid = bit (st_mode st) 11, setgid = bit (st_mode st) 10,
                            sticky = bit (st_mode st) 9\<rparr>,
                 owner_id = st_uid st, group_id = st_gid st\<rparr>"
  using assms by (simp add: get_file_permissions_def perm_bits Let_def)

lemma symbolic_perm_755: "symbolic_perm (S_IFREG OR 0x1ED) = ''-rwxr-xr-x''"
  by (simp add: symbolic_perm_def S_ISDIR_def S_ISLNK_def stat_consts)

lemma symbolic_perm_644: "symbolic_perm (S_IFREG OR 0x1A4) = ''-rw-r--r--''"
  by (simp add: symbolic_perm_def S_ISDIR_def S_ISLNK_def stat_consts)

lemma stat_never_link:
  assumes "stat_follows_links sys" and "stat sys path = Inr st"
  shows "\<not> S_ISLNK (st_mode st)"
  using assms by (simp add: stat_follows_links_def)

lemma sample_stat_follows_links: "stat_follows_links sample_system"
  by (simp add: stat_follows_links_def sample_system_def S_ISLNK_def stat_consts)

text \<open>
  C5. The symbolic string of \<open>get_file_permissions\<close> has exactly ten characters: a type
  character, then nine characters, the \<open>i\<close>-th of which is the \<open>i\<close>-th letter of
  \<open>rwxrwxrwx\<close> when bit \<open>8 - i\<close> of the mode is set and \<open>-\<close> when it is not. Two modes that
  agree on the type bits and the nine permission bits (\<open>0o170777\<close>) have the same string,
  so the set-user-id, set-group-id and sticky bits never change it; they are reported as
  three booleans. A regular file of mode \<open>0o755\<close> gives \<open>-rwxr-xr-x\<close>, one of mode
  \<open>0o644\<close> gives \<open>-rw-r--r--\<close>. The type character is \<open>d\<close> for a directory and has a
  branch for \<open>l\<close>, but the mode comes from \<open>os.stat\<close>, which follows symbolic links: on
  every path, a symbolic link included, the character is \<open>d\<close> or \<open>-\<close>, that of the
  link's target, and never \<open>l\<close>.
\<close>

theorem symbolic_perm_never_link:
  assumes "stat_follows_links sys" and "path_exists sys path" and "stat sys path = Inr st"
    and "mode = st_mode st"
  shows "(\<exists>r. get_file_permissions sys path = Some r \<and> symbolic r = symbolic_perm mode \<and>
              special r = \<lparr>setuid = bit mode 11, setgid = bit mode 10, sticky = bit mode 9\<rparr> \<and>
              symbolic r ! 0 = (if S_ISDIR mode then CHR ''d'' else CHR ''-'') \<and>
              symbolic r ! 0 \<noteq> CHR ''l'') \<and>
         length (symbolic_perm mode) = 10 \<and>
         (\<forall>i<9. symbolic_perm mode ! Suc i =
                   (if bit mode (8 - i) then ''rwxrwxrwx'' ! i else CHR ''-'')) \<and>
         (\<forall>mode'. mode' AND 0xF1FF = mode AND 0xF1FF \<longrightarrow>
                   symbolic_perm mode' = symbolic_perm mode) \<and>
         symbolic_perm (S_IFREG OR 0x1ED) = ''-rwxr-xr-x'' \<and>
         symbolic_perm (S_IFREG OR 0x1A4) = ''-rw-r--r--''"
proof -
  have n: "\<not> S_ISLNK mode"
    using stat_never_link [OF assms(1,3)] assms(4) by simp
  then have t: "symbolic_perm mode ! 0 = (if S_ISDIR mode then CHR ''d'' else CHR ''-'')"
    by (simp add: symbolic_perm_list)
  then have "symbolic_perm mode ! 0 \<noteq> CHR ''l''"
    by simp
  with t have "\<exists>r. get_file_permissions sys path = Some r \<and> symbolic r = symbolic_perm mode \<and>
      special r = \<lparr>setuid = bit mode 11, setgid = bit mode 10, sticky = bit mode 9\<rparr> \<and>
      symbolic r ! 0 = (if S_ISDIR mode then CHR ''d'' else CHR ''-'') \<and>
      symbolic r ! 0 \<noteq> CHR ''l''"
    using get_file_permissions_Some [OF assms(2,3)] assms(4) by simp
  then show ?thesis
    using symbolic_perm_length symbolic_perm_bits symbolic_perm_cong
      symbolic_perm_755 symbolic_perm_644
    by blast
qed

text \<open>
  In the sample system \<open>/link\<close> is a symbolic link (\<open>os.lstat\<close> gives mode \<open>0o120777\<close>) to
  a regular file of mode \<open>0o644\<close>: the string is that of the target.
\<close>

theorem symbolic_perm_never_link_witness:
  "stat_follows_links sample_system \<and> path_exists sample_system ''/link'' \<and>
   lstat sample_system ''/link'' = Inr \<lparr>st_mode = 0xA1FF, st_uid = 0, st_gid = 0\<rparr> \<and>
   S_ISLNK 0xA1FF \<and>
   stat sample_system ''/link'' = Inr \<lparr>st_mode = 0x81A4, st_uid = 0, st_gid = 0\<rparr> \<and>
   (\<exists>r. get_file_permissions sample_system ''/link'' = Some r \<and>
        symbolic r = ''-rw-r--r--'' \<and> symbolic r ! 0 \<noteq> CHR ''l'')"
proof -
  have e: "path_exists sample_system ''/link''"
    by (simp add: sample_system_def)
  have l: "lstat sample_system ''/link'' = Inr \<lparr>st_mode = 0xA1FF, st_uid = 0, st_gid = 0\<rparr>"
    by (simp add: sample_system_def)
  have k: "S_ISLNK 0xA1FF"
    by (simp add: S_ISLNK_def stat_consts)
  have s: "stat sample_system ''/link'' = Inr \<lparr>st_mode = 0x81A4, st_uid = 0, st_gid = 0\<rparr>"
    by (simp add: sample_system_def)
  have m: "(0x81A4 :: 32 word) = st_mode \<lparr>st_mode = 0x81A4, st_uid = 0, st_gid = 0\<rparr>"
    by simp
  have v: "symbolic_perm 0x81A4 = ''-rw-r--r--''"
    using symbolic_perm_644 by (simp add: S_IFREG_def)
  from symbolic_perm_never_link [OF sample_stat_follows_links e s m] obtain r where
    "get_file_permissions sample_system ''/link'' = Some r" "symbolic r = symbolic_perm 0x81A4"
    "symbolic r ! 0 \<noteq> CHR ''l''"
    by blast
  with v have "\<exists>r. get_file_permissions sample_system ''/link'' = Some r \<and>
      symbolic r = ''-rw-r--r--'' \<and> symbolic r ! 0 \<noteq> CHR ''l''"
    by simp
  with sample_stat_follows_links e l k s show ?thesis
    by blast
qed

lemma digit_value_digit_char:
  assumes "k < 8"
  shows "digit_value (digit_char k) = k"
proof -
  have "k \<in> set [0, 1, 2, 3, 4, 5, 6, 7]"
    using assms by (simp, arith)
  then have "k = 0 \<or> k = 1 \<or> k = 2 \<or> k = 3 \<or> k = 4 \<or> k = 5 \<or> k = 6 \<or> k = 7"
    by simp
  then show ?thesis
    by (elim disjE) (simp_all add: digit_value_def digit_char_def)
qed

lemma octal_value_snoc: "octal_value (s @ [c]) = 8 * octal_value s + digit_value c"
  by (simp add: octal_value_def)

lemma octal_value_digits8: "octal_value (digits8 n) = n"
proof (induction n rule: digits8.induct)
  case (1 n)
  show ?case
  proof (cases "n < 8")
    case True
    then show ?thesis
      by (simp add: digits8.simps [of n] octal_value_def digit_value_digit_char)
  next
    case False
    with 1 show ?thesis
      by (simp add: digits8.simps [of n] octal_value_snoc digit_value_digit_char)
  qed
qed

lemma digits8_length:
  assumes "n < 512"
  shows "1 \<le> length (digits8 n) \<and> length (digits8 n) \<le> 3"
  using assms
  by (simp add: digits8.simps [of n] digits8.simps [of "n div 8"]
      digits8.simps [of "n div 8 div 8"])

lemma mask9_bound: "unat ((mode :: 32 word) AND 0x1FF) < 512"
  using word_and_le1 [of mode "0x1FF"] by (simp add: word_le_nat_alt)

lemma octal_perm_755: "octal_perm (S_IFREG OR 0x1ED) = ''0o755''"
  by (simp add: octal_perm_def oct_def S_IFREG_def digits8.simps digit_char_def)

lemma octal_perm_7: "octal_perm (S_IFREG OR 0x7) = ''0o7''"
  by (simp add: octal_perm_def oct_def S_IFREG_def digits8.simps digit_char_def)

text \<open>
  C4, as the code has it. The octal field of \<open>get_file_permissions\<close> is \<open>oct\<close> of
  the mode masked to its low nine bits: the prefix \<open>0o\<close> followed by the octal digits of
  that number, between one and three of them, without padding. Read back as an octal
  number, the digits give the masked mode.
\<close>

theorem octal_perm_oct:
  assumes "path_exists sys path" and "stat sys path = Inr st" and "mode = st_mode st"
  shows "\<exists>r ds. get_file_permissions sys path = Some r \<and> octal r = ''0o'' @ ds \<and>
           ds = digits8 (unat (mode AND 0x1FF)) \<and>
           octal_value ds = unat (mode AND 0x1FF) \<and> 1 \<le> length ds \<and> length ds \<le> 3"
  using get_file_permissions_Some [OF assms(1,2)] assms(3)
    octal_value_digits8 [of "unat (mode AND 0x1FF)"]
    digits8_length [OF mask9_bound [of mode]]
  by (simp add: octal_perm_def oct_def)

theorem octal_perm_oct_witness:
  "path_exists sample_system ''/bin/su'' \<and>
   stat sample_system ''/bin/su'' = Inr \<lparr>st_mode = 0x89ED, st_uid = 0, st_gid = 0\<rparr> \<and>
   (\<exists>r ds. get_file_permissions sample_system ''/bin/su'' = Some r \<and> octal r = ''0o'' @ ds \<and>
      octal_value ds = 0x1ED \<and> 1 \<le> length ds \<and> length ds \<le> 3)"
proof -
  have e: "path_exists sample_system ''/bin/su''"
    by (simp add: sample_system_def)
  have s: "stat sample_system ''/bin/su'' = Inr \<lparr>st_mode = 0x89ED, st_uid = 0, st_gid = 0\<rparr>"
    by (simp add: sample_system_def)
  have m: "(0x89ED :: 32 word) = st_mode \<lparr>st_mode = 0x89ED, st_uid = 0, st_gid = 0\<rparr>"
    by simp
  have v: "unat ((0x89ED :: 32 word) AND 0x1FF) = 0x1ED"
    by simp
  from octal_perm_oct [OF e s m] v e s show ?thesis
    by metis
qed

text \<open>
  The claim as the specification words it fails: for a regular file of mode \<open>0o755\<close>
  the octal field is \<open>0o755\<close>, not \<open>755\<close>, and for mode \<open>0o007\<close> it is \<open>0o7\<close>,
  which has one digit.
\<close>

theorem octal_perm_three_digits_counterexample:
  "octal_perm (S_IFREG OR 0x1ED) = ''0o755'' \<and> octal_perm (S_IFREG OR 0x1ED) \<noteq> ''755'' \<and>
   octal_perm (S_IFREG OR 0x7) = ''0o7'' \<and> octal_perm (S_IFREG OR 0x7) \<noteq> ''007''"
  by (simp add: octal_perm_755 octal_perm_7)

section \<open>Size formatting\<close>

lemma bitlen_le_iff: "0 \<le> m \<Longrightarrow> bitlen m \<le> k \<longleftrightarrow> m < 2 ^ k"
proof (induction k arbitrary: m)
  case 0
  then show ?case by (simp add: bitlen.simps [of m])
next
  case (Suc k)
  show ?case
  proof (cases "m \<le> 0")
    case True
    with Suc.prems have "m = 0" by simp
    then show ?thesis by (simp add: bitlen.simps [of 0])
  next
    case False
    then have "0 \<le> m div 2" by simp
    from Suc.IH [OF this] False show ?thesis
      by (simp add: bitlen.simps [of m]) linarith
  qed
qed

lemma scale_loop_unit:
  "i \<le> 5 \<Longrightarrow> 1024 ^ (5 - i) \<le> sz \<Longrightarrow> snd (scale_loop sz i) = 5"
proof (induction sz i rule: scale_loop.induct)
  case (1 sz i)
  show ?case
  proof (cases "sz \<ge> 1024 \<and> i < length units - 1")
    case True
    then have i: "i < 5" by (simp add: units_def)
    then have "5 - i = Suc (5 - (i + 1))" by simp
    with 1(3) have "1024 * 1024 ^ (5 - (i + 1)) \<le> sz" by simp
    then have "1024 ^ (5 - (i + 1)) \<le> sz / 1024" by simp
    with 1(1) [OF True] i have "snd (scale_loop (sz / 1024) (i + 1)) = 5" by simp
    with True show ?thesis by (simp add: scale_loop.simps [of sz i])
  next
    case False
    have "i = 5"
    proof (rule ccontr)
      assume "i \<noteq> 5"
      with 1(2) have i: "i < 5" by simp
      with False have "sz < 1024" by (simp add: units_def)
      moreover have "(1024::rat) ^ 1 \<le> 1024 ^ (5 - i)"
        using i by (intro power_increasing) simp_all
      ultimately show False using 1(3) by simp
    qed
    moreover from False have "scale_loop sz i = (sz, i)"
      by (auto simp add: scale_loop.simps [of sz i])
    ultimately show ?thesis by simp
  qed
qed


lemma round_to_double_bounds:
  assumes "0 \<le> m"
  shows "m div 2 ^ (bitlen m - 53) * 2 ^ (bitlen m - 53) \<le> round_to_double m"
    and "round_to_double m \<le> (m div 2 ^ (bitlen m - 53) + 1) * 2 ^ (bitlen m - 53)"
    and "bitlen m \<le> 53 \<Longrightarrow> round_to_double m = m"
  by (simp_all add: round_to_double_def Let_def mult_right_mono)

lemma bitlen_lower: "0 < m \<Longrightarrow> 2 ^ (bitlen m - 1) \<le> m"
  using bitlen_le_iff [of m "bitlen m - 1"] by (cases "bitlen m") (simp_all add: bitlen.simps [of m] not_less)

lemma bitlen_upper: "0 \<le> m \<Longrightarrow> m < 2 ^ bitlen m"
  using bitlen_le_iff [of m "bitlen m"] by simp



lemma round_to_double_upper:
  assumes "0 \<le> m"
  shows "round_to_double m \<le> 2 ^ bitlen m"
proof (cases "bitlen m \<le> 53")
  case True
  with assms round_to_double_bounds(3) [of m] bitlen_upper [of m] show ?thesis by simp
next
  case False
  define e where "e = bitlen m - 53"
  from False have b: "bitlen m = 53 + e" by (simp add: e_def)
  have "m < 2 ^ 53 * 2 ^ e"
    using bitlen_upper [OF assms] by (simp add: b power_add)
  moreover have "m div 2 ^ e * 2 ^ e = m - m mod 2 ^ e"
    by (simp add: minus_mod_eq_div_mult)
  moreover have "0 \<le> m mod 2 ^ e"
    by simp
  ultimately have "m div 2 ^ e * 2 ^ e < 2 ^ 53 * 2 ^ e"
    by linarith
  then have "m div 2 ^ e < 2 ^ 53"
    by (simp only: mult_less_cancel_right) simp
  then have "(m div 2 ^ e + 1) * 2 ^ e \<le> 2 ^ 53 * 2 ^ e"
    by (intro mult_right_mono) simp_all
  moreover have "round_to_double m \<le> (m div 2 ^ e + 1) * 2 ^ e"
    unfolding e_def by (rule round_to_double_bounds(2) [OF assms])
  ultimately have "round_to_double m \<le> 2 ^ 53 * 2 ^ e"
    by (rule order_trans [rotated])
  then show ?thesis
    by (simp only: b power_add)
qed

lemma round_to_double_lower:
  assumes "0 \<le> m" and "c \<le> m" and "c \<le> 2 ^ 52"
  shows "c \<le> round_to_double m"
proof (cases "bitlen m \<le> 53")
  case True
  with assms round_to_double_bounds(3) [of m] show ?thesis by simp
next
  case False
  define e where "e = bitlen m - 53"
  from False have b: "bitlen m - 1 = 52 + e" by (simp add: e_def)
  from False have "0 < m" using assms(1) by (cases "m = 0") (simp_all add: bitlen.simps [of 0])
  from bitlen_lower [OF this] have "2 ^ 52 * 2 ^ e \<le> m"
    unfolding b by (simp only: power_add)
  then have "(2 ^ 52 * 2 ^ e) div 2 ^ e \<le> m div 2 ^ e"
    by (intro zdiv_mono1) simp_all
  then have "2 ^ 52 \<le> m div 2 ^ e"
    by simp
  then have "2 ^ 52 * 1 \<le> m div 2 ^ e * 2 ^ e"
    by (intro mult_mono) simp_all
  moreover have "m div 2 ^ e * 2 ^ e \<le> round_to_double m"
    unfolding e_def by (rule round_to_double_bounds(1) [OF assms(1)])
  ultimately show ?thesis
    using assms(3) by simp
qed

lemma float_of_int_Inr:
  assumes "\<bar>n\<bar> < 2 ^ 1023"
  shows "float_of_int n = Inr (of_int (if n < 0 then - round_to_double \<bar>n\<bar> else round_to_double \<bar>n\<bar>))"
proof -
  have "bitlen \<bar>n\<bar> \<le> 1023"
    using assms by (simp add: bitlen_le_iff)
  then have "(2::int) ^ bitlen \<bar>n\<bar> \<le> 2 ^ 1023"
    by (intro power_increasing) simp_all
  with round_to_double_upper [of "\<bar>n\<bar>"] have "round_to_double \<bar>n\<bar> < 2 ^ 1024"
    by simp
  moreover have "0 \<le> round_to_double \<bar>n\<bar>"
    by (rule round_to_double_lower) simp_all
  ultimately have "bitlen (round_to_double \<bar>n\<bar>) \<le> 1024"
    by (simp add: bitlen_le_iff)
  then show ?thesis
    by (simp add: float_of_int_def Let_def)
qed

lemma units_nth: "units ! 0 = ''B''" "units ! 5 = ''PB''"
  by (simp_all add: units_def)

lemma human_readable_size_PB:
  assumes "1024 ^ 5 \<le> n" and "n < 2 ^ 1023"
  shows "\<exists>s. human_readable_size (Some n) d = Inr (s @ '' PB'')"
proof -
  from assms have n: "n \<noteq> 0" "\<not> n < 0" "\<bar>n\<bar> = n" by simp_all
  define f :: rat where "f = of_int (round_to_double n)"
  have fl: "float_of_int n = Inr f"
    using float_of_int_Inr [of n] assms n by (simp add: f_def)
  have "(1024 :: int) ^ 5 \<le> round_to_double n"
    using assms by (intro round_to_double_lower) simp_all
  then have "(of_int ((1024 :: int) ^ 5) :: rat) \<le> f"
    unfolding f_def by (simp only: of_int_le_iff)
  then have "(1024 :: rat) ^ (5 - 0) \<le> f" by simp
  then have "snd (scale_loop f 0) = 5"
    by (intro scale_loop_unit) simp_all
  then obtain s where "scale_loop f 0 = (s, 5)"
    by (cases "scale_loop f 0") simp
  with fl n have "human_readable_size (Some n) d = Inr ((format_f s d) @ '' PB'')"
    by (simp add: human_readable_size_def units_nth)
  then show ?thesis ..
qed




lemma hrs_0: "human_readable_size (Some 0) d = Inr ''0 B''"
  by (simp add: human_readable_size_def)

lemma hrs_1024: "human_readable_size (Some 1024) 2 = Inr ''1.00 KB''"
proof -
  have "float_of_int 1024 = Inr 1024" by code_simp
  moreover have "scale_loop 1024 0 = (1, 1)" by code_simp
  moreover have "format_f 1 2 = ''1.00''" by code_simp
  ultimately show ?thesis
    by (simp add: human_readable_size_def units_def)
qed

lemma hrs_1536: "human_readable_size (Some 1536) 2 = Inr ''1.50 KB''"
proof -
  have "float_of_int 1536 = Inr 1536" by code_simp
  moreover have "scale_loop 1536 0 = (3 / 2, 1)" by code_simp
  moreover have "format_f (3 / 2) 2 = ''1.50''" by code_simp
  ultimately show ?thesis
    by (simp add: human_readable_size_def units_def)
qed



lemma scale_loop_steps:
  "i + k \<le> 5 \<Longrightarrow> 1024 ^ k \<le> sz \<Longrightarrow> sz < 1024 ^ (k + 1) \<or> i + k = 5 \<Longrightarrow>
   scale_loop sz i = (sz / 1024 ^ k, i + k)"
proof (induction k arbitrary: sz i)
  case 0
  then show ?case
    by (auto simp add: scale_loop.simps [of sz i] units_def)
next
  case (Suc k)
  have "(1024 :: rat) ^ 1 \<le> 1024 ^ Suc k"
    by (intro power_increasing) simp_all
  also have "\<dots> \<le> sz"
    by (rule Suc.prems(2))
  finally have "1024 \<le> sz"
    by simp
  moreover from Suc.prems(1) have "i < length units - 1"
    by (simp add: units_def)
  ultimately have a: "1024 \<le> sz \<and> i < length units - 1" ..
  have "scale_loop (sz / 1024) (i + 1) = (sz / 1024 / 1024 ^ k, i + 1 + k)"
    using Suc.prems by (intro Suc.IH) (simp_all add: field_simps)
  with a show ?case
    by (simp add: scale_loop.simps [of sz i])
qed

lemma human_readable_size_exact:
  assumes "k \<le> 5" and "1024 ^ k \<le> n" and "n < 1024 ^ (k + 1) \<or> k = 5" and "n < 2 ^ 53"
  shows "human_readable_size (Some n) d =
           Inr (format_f (of_int n / 1024 ^ k) d @ '' '' @ units ! k)"
proof -
  have pos: "0 < n"
    using assms(2) by (rule less_le_trans [rotated]) simp
  then have "bitlen \<bar>n\<bar> \<le> 53"
    using assms(4) by (simp add: bitlen_le_iff)
  then have "round_to_double \<bar>n\<bar> = n"
    using pos round_to_double_bounds(3) [of "\<bar>n\<bar>"] by simp
  moreover have "\<bar>n\<bar> < 2 ^ 1023"
    using pos assms(4) by simp
  ultimately have fl: "float_of_int n = Inr (of_int n)"
    using float_of_int_Inr [of n] pos by simp
  have "(of_int ((1024 :: int) ^ k) :: rat) \<le> of_int n"
    using assms(2) by (simp only: of_int_le_iff)
  moreover have "(of_int n :: rat) < of_int ((1024 :: int) ^ (k + 1)) \<or> k = 5"
    using assms(3) by (simp only: of_int_less_iff)
  ultimately have "scale_loop (of_int n) 0 = (of_int n / 1024 ^ k, 0 + k)"
    using assms(1) by (intro scale_loop_steps) simp_all
  with fl pos show ?thesis
    by (simp add: human_readable_size_def)
qed




text \<open>
  C7. \<open>_human_readable_size\<close> divides by 1024 until the value is below 1024 or the
  unit is \<open>PB\<close>, the last of \<open>B, KB, MB, GB, TB, PB\<close>: an integer \<open>n\<close> below \<open>2 ^ 53\<close>
  (converted to a double without rounding) with \<open>1024 ^ k \<le> n < 1024 ^ (k + 1)\<close>, or with
  \<open>1024 ^ 5 \<le> n\<close> and \<open>k = 5\<close>, is rendered as \<open>n / 1024 ^ k\<close> followed by the \<open>k\<close>-th
  unit. 0 is rendered as \<open>0 B\<close>, 1024 as \<open>1.00 KB\<close>, 1536 as \<open>1.50 KB\<close>, and every
  integer from \<open>1024 ^ 5\<close> on that a double can hold is rendered with the unit \<open>PB\<close>.
\<close>

theorem human_readable_size_units:
  "human_readable_size (Some 0) 2 = Inr ''0 B'' \<and>
   human_readable_size (Some 1024) 2 = Inr ''1.00 KB'' \<and>
   human_readable_size (Some 1536) 2 = Inr ''1.50 KB'' \<and>
   units = [''B'', ''KB'', ''MB'', ''GB'', ''TB'', ''PB''] \<and>
   (\<forall>n d k. k \<le> 5 \<and> 1024 ^ k \<le> n \<and> (n < 1024 ^ (k + 1) \<or> k = 5) \<and> n < 2 ^ 53 \<longrightarrow>
      human_readable_size (Some n) d =
        Inr (format_f (of_int n / 1024 ^ k) d @ '' '' @ units ! k)) \<and>
   (\<forall>n d. 1024 ^ 5 \<le> n \<and> n < 2 ^ 1023 \<longrightarrow>
      (\<exists>s. human_readable_size (Some n) d = Inr (s @ '' PB'')))"
  using hrs_0 hrs_1024 hrs_1536 human_readable_size_exact human_readable_size_PB
  by (simp add: units_def)

theorem human_readable_size_units_witness:
  "(1 :: nat) \<le> 5 \<and> (1024 :: int) ^ 1 \<le> 1536 \<and> (1536 :: int) < 1024 ^ (1 + 1) \<and>
   (1536 :: int) < 2 ^ 53 \<and>
   human_readable_size (Some 1536) 2 = Inr (format_f (of_int 1536 / 1024 ^ 1) 2 @ '' '' @ units ! 1) \<and>
   (1024 :: int) ^ 5 \<le> 2 ^ 64 \<and> (2 :: int) ^ 64 < 2 ^ 1023 \<and>
   (\<exists>s. human_readable_size (Some (2 ^ 64)) 2 = Inr (s @ '' PB''))"
proof -
  have a: "(1 :: nat) \<le> 5 \<and> (1024 :: int) ^ 1 \<le> 1536 \<and>
           ((1536 :: int) < 1024 ^ (1 + 1) \<or> (1 :: nat) = 5) \<and> (1536 :: int) < 2 ^ 53"
    by simp
  have b: "(1024 :: int) ^ 5 \<le> 2 ^ 64 \<and> (2 :: int) ^ 64 < 2 ^ 1023"
    by simp
  from human_readable_size_units have
    "human_readable_size (Some 1536) 2 = Inr (format_f (of_int 1536 / 1024 ^ 1) 2 @ '' '' @ units ! 1)"
    and "\<exists>s. human_readable_size (Some (2 ^ 64)) 2 = Inr (s @ '' PB'')"
    using a b by blast+
  with a b show ?thesis by simp
qed




section \<open>Filesystem statistics and drive space\<close>










lemma truediv_zero: "truediv a 0 = Inl ZeroDivisionError"
  by (simp add: truediv_def)

text \<open>
  C9. \<open>get_drive_space\<close> on a volume of capacity 0: \<open>disk_usage\<close> returns
  \<open>(0, 0, 0)\<close>, the three sizes are formatted, and \<open>used / total\<close> raises
  \<open>ZeroDivisionError\<close>, which the handler turns into the empty dictionary, the value
  returned when \<open>disk_usage\<close> itself fails.
\<close>

theorem get_drive_space_zero_capacity:
  "get_drive_space (sys\<lparr>disk_usage := \<lambda>p. Inr (0, 0, 0)\<rparr>) path = None \<and>
   get_drive_space (sys\<lparr>disk_usage := \<lambda>p. Inl OSError\<rparr>) path = None"
  by (simp add: get_drive_space_def drive_space_body_def hrs_0 truediv_zero)

section \<open>Disk partitions\<close>

lemma mount_loop_Cons:
  "mount_loop sys all_partitions (line # rest) acc =
     (if length (split_str line) < 5 then mount_loop sys all_partitions rest acc
      else if length (split_str line) = 5 then (acc, Some IndexError)
      else if \<not> all_partitions \<and> non_physical (split_str line ! 4) (split_str line ! 0)
      then mount_loop sys all_partitions rest acc
      else mount_loop sys all_partitions rest
             (acc @ [part_info_of sys (split_str line ! 0) (split_str line ! 2)
                       (split_str line ! 4) (strip ''()'' (split_str line ! 5))]))"
  by (simp add: Let_def index_def)

declare mount_loop.simps(2) [simp del]

lemma part_info_of_fields:
  "device (part_info_of sys dev mnt fs options) = dev"
  "mountpoint (part_info_of sys dev mnt fs options) = mnt"
  "fstype (part_info_of sys dev mnt fs options) = fs"
  "opts (part_info_of sys dev mnt fs options) = options"
  by (simp_all add: part_info_of_def Let_def)

lemma mount_loop_filter:
  "fst (mount_loop sys False ls (filter (\<lambda>p. \<not> non_physical (fstype p) (device p)) acc)) =
   filter (\<lambda>p. \<not> non_physical (fstype p) (device p)) (fst (mount_loop sys True ls acc))"
proof (induction ls arbitrary: acc)
  case Nil
  show ?case by simp
next
  case (Cons line rest)
  let ?P = "\<lambda>p. \<not> non_physical (fstype p) (device p)"
  let ?parts = "split_str line"
  let ?info = "part_info_of sys (?parts ! 0) (?parts ! 2) (?parts ! 4) (strip ''()'' (?parts ! 5))"
  consider (short) "length ?parts < 5" | (five) "length ?parts = 5" | (long) "5 < length ?parts"
    by linarith
  then show ?case
  proof cases
    case short
    with Cons.IH [of acc] show ?thesis
      by (simp only: mount_loop_Cons if_True)
  next
    case five
    then show ?thesis
      by (simp add: mount_loop_Cons)
  next
    case long
    have keep: "filter ?P (acc @ [?info]) =
      (if non_physical (?parts ! 4) (?parts ! 0) then filter ?P acc else filter ?P acc @ [?info])"
      by (simp add: part_info_of_fields)
    from long have "mount_loop sys True (line # rest) acc = mount_loop sys True rest (acc @ [?info])"
      by (simp add: mount_loop_Cons)
    moreover from long have "mount_loop sys False (line # rest) (filter ?P acc) =
        mount_loop sys False rest (filter ?P (acc @ [?info]))"
      unfolding keep by (simp add: mount_loop_Cons)
    ultimately show ?thesis
      using Cons.IH [of "acc @ [?info]"] by simp
  qed
qed


lemma five_fields:
  "splitlines five_field_table =
     [''/dev/disk2s1 on /Volumes/USB (msdos, local)'', ''/dev/sdb1 on /data type ext4 (rw)'']"
  "splitlines well_formed_table = [''/dev/sdb1 on /data type ext4 (rw)'']"
  "split_str ''/dev/disk2s1 on /Volumes/USB (msdos, local)'' =
     [''/dev/disk2s1'', ''on'', ''/Volumes/USB'', ''(msdos,'', ''local)'']"
  "split_str ''/dev/sdb1 on /data type ext4 (rw)'' =
     [''/dev/sdb1'', ''on'', ''/data'', ''type'', ''ext4'', ''(rw)'']"
  by code_simp+

lemma spec_partitions_Nil: "spec_partitions sys include_virtual [] = []"
  by (simp add: spec_partitions_def)

lemma spec_partitions_Cons:
  "spec_partitions sys include_virtual (line # rest) =
     (if 5 \<le> length (split_str line) \<and>
         (include_virtual \<or> \<not> non_physical (split_str line ! 4) (split_str line ! 0))
      then spec_entry sys line # spec_partitions sys include_virtual rest
      else spec_partitions sys include_virtual rest)"
  by (simp add: spec_partitions_def)

lemma mount_loop_spec:
  assumes "list_all (\<lambda>line. length (split_str line) \<noteq> 5) ls"
  shows "mount_loop sys include_virtual ls acc = (acc @ spec_partitions sys include_virtual ls, None)"
  using assms
proof (induction ls arbitrary: acc)
  case Nil
  show ?case by (simp add: spec_partitions_Nil)
next
  case (Cons line rest)
  from Cons.prems have r: "list_all (\<lambda>line. length (split_str line) \<noteq> 5) rest"
    and n: "length (split_str line) \<noteq> 5"
    by simp_all
  note ih = Cons.IH [OF r]
  show ?case
  proof (cases "length (split_str line) < 5")
    case True
    with ih [of acc] show ?thesis
      by (simp add: mount_loop_Cons spec_partitions_Cons)
  next
    case False
    with n have long: "5 < length (split_str line)" by simp
    show ?thesis
    proof (cases "\<not> include_virtual \<and> non_physical (split_str line ! 4) (split_str line ! 0)")
      case True
      with long ih [of acc] show ?thesis
        by (simp add: mount_loop_Cons spec_partitions_Cons)
    next
      case False
      with long ih [of "acc @ [spec_entry sys line]"] show ?thesis
        by (auto simp add: mount_loop_Cons spec_partitions_Cons spec_entry_def Let_def)
    qed
  qed
qed

text \<open>
  C2. On a mount table none of whose lines has exactly five fields, the partitions
  reported are, in the order of the lines, the entries of the lines with at least five
  fields, less, without \<open>all_partitions\<close>, exactly those whose file system type is one of
  \<open>proc\<close>, \<open>sysfs\<close>, \<open>devpts\<close>, \<open>devtmpfs\<close>, \<open>tmpfs\<close> or whose device name starts with
  \<open>none\<close>, \<open>/dev/loop\<close> or \<open>udev\<close>: every entry of another type is reported. On every
  mount table the result without \<open>all_partitions\<close> is the result with it less those
  entries, hence contained in it. A line with exactly five fields ends the loop: on
  \<open>five_field_table\<close> the \<open>ext4\<close> entry of the second line, which the denylist does not name,
  is not reported.
\<close>

theorem get_disk_partitions_denylist:
  assumes "mount_output sys = Inr out"
    and "\<forall>line \<in> set (splitlines out). length (split_str line) \<noteq> 5"
  shows "get_disk_partitions sys include_virtual =
           spec_partitions sys include_virtual (splitlines out) \<and>
         get_disk_partitions sys False =
           filter (\<lambda>p. \<not> non_physical (fstype p) (device p)) (get_disk_partitions sys True) \<and>
         set (get_disk_partitions sys False) \<subseteq> set (get_disk_partitions sys True) \<and>
         non_physical fs dev =
           (fs = ''proc'' \<or> fs = ''sysfs'' \<or> fs = ''devpts'' \<or> fs = ''devtmpfs'' \<or>
            fs = ''tmpfs'' \<or> take 4 dev = ''none'' \<or> take 9 dev = ''/dev/loop'' \<or>
            take 4 dev = ''udev'') \<and>
         get_disk_partitions (sys\<lparr>mount_output := Inr five_field_table\<rparr>) False = [] \<and>
         map (\<lambda>p. (device p, fstype p))
           (spec_partitions (sys\<lparr>mount_output := Inr five_field_table\<rparr>) False
              (splitlines five_field_table)) =
           [(''/dev/disk2s1'', ''local)''), (''/dev/sdb1'', ''ext4'')]"
proof -
  from assms(2) have "list_all (\<lambda>line. length (split_str line) \<noteq> 5) (splitlines out)"
    by (simp add: list_all_iff)
  from mount_loop_spec [OF this, of sys include_virtual "[]"] assms(1)
  have a: "get_disk_partitions sys include_virtual =
      spec_partitions sys include_virtual (splitlines out)"
    by (simp add: get_disk_partitions_def)
  have b: "get_disk_partitions sys False =
     filter (\<lambda>p. \<not> non_physical (fstype p) (device p)) (get_disk_partitions sys True)"
    using mount_loop_filter [of sys _ "[]"]
    by (simp add: get_disk_partitions_def split: sum.splits)
  then have c: "set (get_disk_partitions sys False) \<subseteq> set (get_disk_partitions sys True)"
    by (metis filter_is_subset)
  have d: "non_physical fs dev =
     (fs = ''proc'' \<or> fs = ''sysfs'' \<or> fs = ''devpts'' \<or> fs = ''devtmpfs'' \<or> fs = ''tmpfs'' \<or>
      take 4 dev = ''none'' \<or> take 9 dev = ''/dev/loop'' \<or> take 4 dev = ''udev'')"
    by (simp add: non_physical_def startswith_def eval_nat_numeral)
  have e: "get_disk_partitions (sys\<lparr>mount_output := Inr five_field_table\<rparr>) False = []"
    by (simp add: get_disk_partitions_def five_fields mount_loop_Cons)
  have f: "map (\<lambda>p. (device p, fstype p))
      (spec_partitions (sys\<lparr>mount_output := Inr five_field_table\<rparr>) False
         (splitlines five_field_table)) =
      [(''/dev/disk2s1'', ''local)''), (''/dev/sdb1'', ''ext4'')]"
    by (simp add: five_fields spec_partitions_Cons spec_partitions_Nil spec_entry_def
        non_physical_def startswith_def part_info_of_fields)
  from a b c d e f show ?thesis
    by (simp only: simp_thms)
qed

lemma sample_lines:
  "splitlines sample_mount_output =
     [''/dev/sda1 on / type ext4 (rw,relatime)'', ''proc on /proc type proc (rw)'',
      ''garbage line'', ''/dev/loop3 on /snap type squashfs (ro)'',
      ''/dev/sdb1 on /data type zfs (rw)'']"
  by code_simp

lemma sample_fields:
  "split_str ''/dev/sda1 on / type ext4 (rw,relatime)'' =
     [''/dev/sda1'', ''on'', ''/'', ''type'', ''ext4'', ''(rw,relatime)'']"
  "split_str ''proc on /proc type proc (rw)'' = [''proc'', ''on'', ''/proc'', ''type'', ''proc'', ''(rw)'']"
  "split_str ''garbage line'' = [''garbage'', ''line'']"
  "split_str ''/dev/loop3 on /snap type squashfs (ro)'' =
     [''/dev/loop3'', ''on'', ''/snap'', ''type'', ''squashfs'', ''(ro)'']"
  "split_str ''/dev/sdb1 on /data type zfs (rw)'' =
     [''/dev/sdb1'', ''on'', ''/data'', ''type'', ''zfs'', ''(rw)'']"
  by code_simp+

lemma sample_spec_partitions:
  "map (\<lambda>p. (device p, fstype p))
     (spec_partitions sample_system True (splitlines sample_mount_output)) =
     [(''/dev/sda1'', ''ext4''), (''proc'', ''proc''), (''/dev/loop3'', ''squashfs''),
      (''/dev/sdb1'', ''zfs'')]"
  "map (\<lambda>p. (device p, fstype p))
     (spec_partitions sample_system False (splitlines sample_mount_output)) =
     [(''/dev/sda1'', ''ext4''), (''/dev/sdb1'', ''zfs'')]"
  by (simp_all add: sample_lines sample_fields spec_partitions_Cons spec_partitions_Nil
      spec_entry_def non_physical_def startswith_def part_info_of_fields)

text \<open>
  In the sample system the line of two fields is skipped, \<open>proc\<close> and the loop device
  are left out without \<open>all_partitions\<close>, and the volume of the type \<open>zfs\<close>, which no list
  names, is reported.
\<close>

theorem get_disk_partitions_denylist_witness:
  "mount_output sample_system = Inr sample_mount_output \<and>
   list_all (\<lambda>line. length (split_str line) \<noteq> 5) (splitlines sample_mount_output) \<and>
   map (\<lambda>p. (device p, fstype p)) (get_disk_partitions sample_system True) =
     [(''/dev/sda1'', ''ext4''), (''proc'', ''proc''), (''/dev/loop3'', ''squashfs''),
      (''/dev/sdb1'', ''zfs'')] \<and>
   map (\<lambda>p. (device p, fstype p)) (get_disk_partitions sample_system False) =
     [(''/dev/sda1'', ''ext4''), (''/dev/sdb1'', ''zfs'')]"
proof -
  have m: "mount_output sample_system = Inr sample_mount_output"
    by (simp add: sample_system_def)
  have l: "list_all (\<lambda>line. length (split_str line) \<noteq> 5) (splitlines sample_mount_output)"
    by (simp add: sample_lines sample_fields)
  then have h: "\<forall>line \<in> set (splitlines sample_mount_output). length (split_str line) \<noteq> 5"
    by (simp only: list_all_iff)
  from get_disk_partitions_denylist [OF m h, of True]
  have t: "get_disk_partitions sample_system True =
      spec_partitions sample_system True (splitlines sample_mount_output)"
    by blast
  from get_disk_partitions_denylist [OF m h, of False]
  have f: "get_disk_partitions sample_system False =
      spec_partitions sample_system False (splitlines sample_mount_output)"
    by blast
  from m l show ?thesis
    unfolding t f by (simp only: sample_spec_partitions simp_thms)
qed

text \<open>
  C1. A mount-table line with exactly five fields passes the guard \<open>len(parts) >= 5\<close>
  and then raises \<open>IndexError\<close> at \<open>parts[5]\<close>; the handler around the loop catches it,
  and no later line is read. In \<open>five_field_table\<close> the first line has five fields, and
  the well-formed second line, which alone is reported as one partition, is lost: the
  result is empty.
\<close>

theorem get_disk_partitions_five_fields:
  "get_disk_partitions (sys\<lparr>mount_output := Inr five_field_table\<rparr>) all_partitions = [] \<and>
   map device (get_disk_partitions (sys\<lparr>mount_output := Inr well_formed_table\<rparr>) all_partitions) =
     [''/dev/sdb1'']"
  by (simp add: get_disk_partitions_def five_fields mount_loop_Cons non_physical_def
      startswith_def part_info_of_fields)

section \<open>File hashes\<close>

lemma foldl_read_chunks: "foldl (\<lambda>h chunk. h @ chunk) acc (read_chunks bs) = acc @ bs"
proof (induction bs arbitrary: acc rule: read_chunks.induct)
  case (1 bs)
  show ?case
  proof (cases "bs = []")
    case True
    then show ?thesis by (simp add: read_chunks.simps [of "[]"])
  next
    case False
    from 1 [OF False, of "acc @ take 4096 bs"] False show ?thesis
      by (simp add: read_chunks.simps [of bs])
  qed
qed

lemma get_file_hash_cases:
  "\<not> isfile sys path \<Longrightarrow> get_file_hash sys path hash_type = []"
  "hash_type \<notin> set hash_funcs \<Longrightarrow> get_file_hash sys path hash_type = []"
  "file_bytes sys path = Inl e \<Longrightarrow> get_file_hash sys path hash_type = []"
  "isfile sys path \<Longrightarrow> hash_type \<in> set hash_funcs \<Longrightarrow> file_bytes sys path = Inr bs \<Longrightarrow>
     get_file_hash sys path hash_type = hexdigest sys hash_type bs"
  by (simp_all add: get_file_hash_def file_hash_body_def foldl_read_chunks)

lemma digest_length_cases:
  "digest_length ''md5'' = 32" "digest_length ''sha1'' = 40" "digest_length ''sha256'' = 64"
  by (simp_all add: digest_length_def)

lemma sample_hashlib: "hashlib_contract sample_system"
  by (auto simp add: hashlib_contract_def sample_system_def hex_chars_def)

text \<open>
  C10. \<open>get_file_hash\<close> returns the empty string when the path is not a regular file,
  when the hash type is not one of \<open>md5\<close>, \<open>sha1\<close>, \<open>sha256\<close>, and when opening or
  reading the file raises. Otherwise it returns the hexadecimal digest of the whole
  content, which by the contract of \<open>hashlib\<close> has 32, 40 or 64 hexadecimal digits for the
  three algorithms and so is never the empty string. The method returns a string in
  every case: no exception leaves it.
\<close>

theorem get_file_hash_empty_on_failure:
  assumes "hashlib_contract sys"
  shows "(\<not> isfile sys path \<longrightarrow> get_file_hash sys path hash_type = []) \<and>
         (hash_type \<notin> set [''md5'', ''sha1'', ''sha256''] \<longrightarrow>
            get_file_hash sys path hash_type = []) \<and>
         (\<forall>e. file_bytes sys path = Inl e \<longrightarrow> get_file_hash sys path hash_type = []) \<and>
         (\<forall>bs. isfile sys path \<and> hash_type \<in> set [''md5'', ''sha1'', ''sha256''] \<and>
               file_bytes sys path = Inr bs \<longrightarrow>
               get_file_hash sys path hash_type = hexdigest sys hash_type bs \<and>
               length (get_file_hash sys path hash_type) = digest_length hash_type \<and>
               set (get_file_hash sys path hash_type) \<subseteq> hex_chars \<and>
               get_file_hash sys path hash_type \<noteq> []) \<and>
         digest_length ''md5'' = 32 \<and> digest_length ''sha1'' = 40 \<and>
         digest_length ''sha256'' = 64"
proof -
  have "get_file_hash sys path hash_type = hexdigest sys hash_type bs \<and>
        length (get_file_hash sys path hash_type) = digest_length hash_type \<and>
        set (get_file_hash sys path hash_type) \<subseteq> hex_chars \<and>
        get_file_hash sys path hash_type \<noteq> []"
    if "isfile sys path" and h: "hash_type \<in> set [''md5'', ''sha1'', ''sha256'']"
      and "file_bytes sys path = Inr bs" for bs
  proof -
    from that have r: "get_file_hash sys path hash_type = hexdigest sys hash_type bs"
      by (intro get_file_hash_cases(4)) (simp_all add: hash_funcs_def)
    from assms have l: "length (hexdigest sys hash_type bs) = digest_length hash_type"
      and x: "set (hexdigest sys hash_type bs) \<subseteq> hex_chars"
      by (simp_all add: hashlib_contract_def)
    from h have "0 < digest_length hash_type"
      by (auto simp add: digest_length_def)
    with l have "hexdigest sys hash_type bs \<noteq> []"
      by auto
    with r l x show ?thesis by simp
  qed
  moreover have "hash_type \<notin> set [''md5'', ''sha1'', ''sha256''] \<longrightarrow>
      get_file_hash sys path hash_type = []"
    using get_file_hash_cases(2) [of hash_type sys path] by (simp add: hash_funcs_def)
  ultimately show ?thesis
    using get_file_hash_cases(1,3) [of sys path] digest_length_cases by blast
qed

theorem get_file_hash_empty_on_failure_witness:
  "hashlib_contract sample_system \<and>
   \<not> isfile sample_system ''/missing'' \<and> get_file_hash sample_system ''/missing'' ''md5'' = [] \<and>
   ''crc32'' \<notin> set [''md5'', ''sha1'', ''sha256''] \<and>
   get_file_hash sample_system ''/bin/su'' ''crc32'' = [] \<and>
   file_bytes sample_system ''/locked'' = Inl OSError \<and>
   get_file_hash sample_system ''/locked'' ''sha1'' = [] \<and>
   isfile sample_system ''/bin/su'' \<and> file_bytes sample_system ''/bin/su'' = Inr [1, 2, 3] \<and>
   length (get_file_hash sample_system ''/bin/su'' ''sha256'') = 64"
proof -
  have a: "\<not> isfile sample_system ''/missing''" "''crc32'' \<notin> set [''md5'', ''sha1'', ''sha256'']"
    "file_bytes sample_system ''/locked'' = Inl OSError"
    "isfile sample_system ''/bin/su''" "file_bytes sample_system ''/bin/su'' = Inr [1, 2, 3]"
    "''sha256'' \<in> set [''md5'', ''sha1'', ''sha256'']"
    by (simp_all add: sample_system_def)
  note t = get_file_hash_empty_on_failure [OF sample_hashlib]
  from t [of "''/missing''" "''md5''"] a(1)
  have 1: "get_file_hash sample_system ''/missing'' ''md5'' = []" by blast
  from t [of "''/bin/su''" "''crc32''"] a(2)
  have 2: "get_file_hash sample_system ''/bin/su'' ''crc32'' = []" by blast
  from t [of "''/locked''" "''sha1''"] a(3)
  have 3: "get_file_hash sample_system ''/locked'' ''sha1'' = []" by blast
  from t [of "''/bin/su''" "''sha256''"] a(4,5,6)
  have 4: "length (get_file_hash sample_system ''/bin/su'' ''sha256'') = 64" by metis
  from a 1 2 3 4 sample_hashlib show ?thesis by blast
qed

text \<open>
  C8, as the code has it. The three failure conditions of \<open>get_file_hash\<close>, a path that
  is not a regular file, an unsupported hash type and a failure to open or read, all
  return one and the same value, the empty string.
\<close>

theorem get_file_hash_one_failure_value:
  assumes "\<not> isfile sys path \<or> hash_type \<notin> set [''md5'', ''sha1'', ''sha256''] \<or>
           (\<exists>e. file_bytes sys path = Inl e)"
  shows "get_file_hash sys path hash_type = []"
  using assms get_file_hash_cases(1,2,3)
  by (auto simp add: hash_funcs_def)

theorem get_file_hash_one_failure_value_witness:
  "\<not> isfile sample_system ''/missing'' \<and> get_file_hash sample_system ''/missing'' ''md5'' = [] \<and>
   ''crc32'' \<notin> set [''md5'', ''sha1'', ''sha256''] \<and>
   get_file_hash sample_system ''/bin/su'' ''crc32'' = [] \<and>
   file_bytes sample_system ''/locked'' = Inl OSError \<and>
   get_file_hash sample_system ''/locked'' ''sha1'' = []"
proof -
  have a: "\<not> isfile sample_system ''/missing''" "''crc32'' \<notin> set [''md5'', ''sha1'', ''sha256'']"
    "file_bytes sample_system ''/locked'' = Inl OSError"
    by (simp_all add: sample_system_def)
  from a(1) have "get_file_hash sample_system ''/missing'' ''md5'' = []"
    by (intro get_file_hash_one_failure_value) simp
  moreover from a(2) have "get_file_hash sample_system ''/bin/su'' ''crc32'' = []"
    by (intro get_file_hash_one_failure_value) simp
  moreover from a(3) have "get_file_hash sample_system ''/locked'' ''sha1'' = []"
    by (intro get_file_hash_one_failure_value) simp
  ultimately show ?thesis using a by blast
qed

text \<open>
  The claim as the specification words it fails: a path that is not a file, an unsupported
  algorithm and an unreadable file give the caller the same value, so they cannot be told
  apart.
\<close>

theorem get_file_hash_typed_failure_counterexample:
  "get_file_hash sample_system ''/missing'' ''md5'' =
     get_file_hash sample_system ''/bin/su'' ''crc32'' \<and>
   get_file_hash sample_system ''/bin/su'' ''crc32'' =
     get_file_hash sample_system ''/locked'' ''md5'' \<and>
   get_file_hash sample_system ''/locked'' ''md5'' = []"
  by (simp add: sample_system_def hash_funcs_def get_file_hash_def file_hash_body_def)

end
